theory Spec2Isabelle
  imports Complex_Main "HOL-Library.Log_Nat"
begin

section \<open>Spirit stone ledger (spirit_stones.py)\<close>

text \<open>
  \<^verbatim>\<open>SpiritStoneGrade\<close> is a Python enum with five members; iterating the enum yields them
  in declaration order. The inventory is a dict that \<^verbatim>\<open>__init__\<close> fills with every grade,
  so it is a total function from grades to Python integers. A cost is a dict from grades
  to integers; it is modelled by its item list in insertion order, whose keys are
  pairwise distinct because it is a dict.
\<close>

datatype SpiritStoneGrade = LOW | MID | HIGH | PEAK | DIVINE

type_synonym inventory = "SpiritStoneGrade \<Rightarrow> int"

type_synonym cost = "(SpiritStoneGrade \<times> int) list"

definition all_grades :: "SpiritStoneGrade list" where
  "all_grades = [LOW, MID, HIGH, PEAK, DIVINE]"

fun EXCHANGE_RATES :: "SpiritStoneGrade \<Rightarrow> int" where
  "EXCHANGE_RATES LOW = 1"
| "EXCHANGE_RATES MID = 10"
| "EXCHANGE_RATES HIGH = 100"
| "EXCHANGE_RATES PEAK = 1000"
| "EXCHANGE_RATES DIVINE = 10000"

text \<open>The inventory built by \<^verbatim>\<open>SpiritStoneManager.__init__\<close>.\<close>

definition initial_inventory :: inventory where
  "initial_inventory = (\<lambda>grade. 0)(LOW := 50, MID := 15, HIGH := 3)"

text \<open>\<^verbatim>\<open>add_stones\<close>: \<^verbatim>\<open>self.inventory[grade] += amount\<close>, with no check on the amount.\<close>

definition add_stones :: "inventory \<Rightarrow> SpiritStoneGrade \<Rightarrow> int \<Rightarrow> inventory" where
  "add_stones stock grade amount = stock(grade := stock grade + amount)"

text \<open>\<^verbatim>\<open>get_total_value_in_low_grade\<close>: the loop over \<^verbatim>\<open>self.inventory.items()\<close>.\<close>

definition get_total_value_in_low_grade :: "inventory \<Rightarrow> int" where
  "get_total_value_in_low_grade stock =
     fold (\<lambda>grade total. total + stock grade * EXCHANGE_RATES grade) all_grades 0"

text \<open>The accumulation of \<^verbatim>\<open>total_cost\<close> shared by both conversion routines.\<close>

definition total_cost :: "cost \<Rightarrow> int" where
  "total_cost c = fold (\<lambda>(grade, amount) total. total + amount * EXCHANGE_RATES grade) c 0"

definition can_afford_with_conversion :: "inventory \<Rightarrow> cost \<Rightarrow> bool" where
  "can_afford_with_conversion stock c = (total_cost c \<le> get_total_value_in_low_grade stock)"

text \<open>
  \<^verbatim>\<open>can_afford_cost\<close>: the loop returns the conversion check on the \<^emph>\<open>whole\<close> cost as soon
  as one grade is short; the first argument of the loop keeps the whole cost.
\<close>

fun can_afford_loop :: "inventory \<Rightarrow> cost \<Rightarrow> cost \<Rightarrow> bool" where
  "can_afford_loop stock whole [] = True"
| "can_afford_loop stock whole ((grade, amount) # rest) =
     (if stock grade < amount then can_afford_with_conversion stock whole
      else can_afford_loop stock whole rest)"

definition can_afford_cost :: "inventory \<Rightarrow> cost \<Rightarrow> bool" where
  "can_afford_cost stock c = can_afford_loop stock c c"

text \<open>
  The exact-payment loop of \<^verbatim>\<open>pay_cost\<close> on the copy \<^verbatim>\<open>temp_inventory\<close>; the second
  component is the flag \<^verbatim>\<open>exact_payment\<close> (the loop breaks at the first short grade).
\<close>

fun exact_payment_loop :: "cost \<Rightarrow> inventory \<Rightarrow> inventory \<times> bool" where
  "exact_payment_loop [] temp = (temp, True)"
| "exact_payment_loop ((grade, amount) # rest) temp =
     (if amount \<le> temp grade
      then exact_payment_loop rest (temp(grade := temp grade - amount))
      else (temp, False))"

text \<open>
  The greedy loop of \<^verbatim>\<open>_pay_with_conversion\<close> over the grades from highest to lowest,
  threading the inventory and \<^verbatim>\<open>remaining_cost\<close>. Python's \<^verbatim>\<open>//\<close> on integers is floor
  division, which is \<open>div\<close> on \<open>int\<close>.
\<close>

fun conversion_loop :: "SpiritStoneGrade list \<Rightarrow> inventory \<Rightarrow> int \<Rightarrow> inventory \<times> int" where
  "conversion_loop [] stock remaining_cost = (stock, remaining_cost)"
| "conversion_loop (grade # grades) stock remaining_cost =
     (if remaining_cost \<le> 0 then (stock, remaining_cost)
      else
        (let stones_available = stock grade; stone_value = EXCHANGE_RATES grade in
         if 0 < stones_available \<and> 0 < remaining_cost then
           (let stones_to_use =
                  min stones_available ((remaining_cost + stone_value - 1) div stone_value)
            in conversion_loop grades (stock(grade := stock grade - stones_to_use))
                 (remaining_cost - stones_to_use * stone_value))
         else conversion_loop grades stock remaining_cost))"

definition pay_with_conversion :: "inventory \<Rightarrow> cost \<Rightarrow> bool \<times> inventory" where
  "pay_with_conversion stock c =
     (case conversion_loop (rev all_grades) stock (total_cost c) of
        (stock', remaining_cost) \<Rightarrow> (remaining_cost \<le> 0, stock'))"

text \<open>\<^verbatim>\<open>pay_cost\<close> returns its boolean together with the inventory it leaves behind.\<close>

definition pay_cost :: "inventory \<Rightarrow> cost \<Rightarrow> bool \<times> inventory" where
  "pay_cost stock c =
     (if \<not> can_afford_cost stock c then (False, stock)
      else
        (case exact_payment_loop c stock of
           (temp_inventory, exact_payment) \<Rightarrow>
             if exact_payment then (True, temp_inventory) else pay_with_conversion stock c))"

text \<open>The ledger and the cost of the conversion scenario.\<close>

definition scenario_ledger :: inventory where
  "scenario_ledger = (\<lambda>grade. 0)(MID := 2, HIGH := 1)"

definition scenario_cost :: cost where
  "scenario_cost = [(MID, 5)]"

text \<open>Value that the conversion loop can still draw from the given grades.\<close>

definition usable_value :: "SpiritStoneGrade list \<Rightarrow> inventory \<Rightarrow> int" where
  "usable_value grades stock = (\<Sum>grade\<leftarrow>grades. max 0 (stock grade) * EXCHANGE_RATES grade)"


section \<open>Properties of the ledger\<close>

lemma EXCHANGE_RATES_pos: "0 < EXCHANGE_RATES grade"
  by (cases grade) simp_all

lemma fold_add_sum_list:
  "fold (\<lambda>x (total::int). total + f x) xs a = a + sum_list (map f xs)"
  by (induction xs arbitrary: a) simp_all

lemma total_value_sum:
  "get_total_value_in_low_grade stock = (\<Sum>grade\<leftarrow>all_grades. stock grade * EXCHANGE_RATES grade)"
  by (simp add: get_total_value_in_low_grade_def fold_add_sum_list)

lemma total_value_eval:
  "get_total_value_in_low_grade stock =
     stock LOW + stock MID * 10 + stock HIGH * 100 + stock PEAK * 1000 + stock DIVINE * 10000"
  by (simp add: total_value_sum all_grades_def)

lemma exact_payment_flag:
  "distinct (map fst c) \<Longrightarrow>
     snd (exact_payment_loop c temp) = list_all (\<lambda>(grade, amount). amount \<le> temp grade) c"
proof (induction c arbitrary: temp)
  case Nil
  then show ?case by simp
next
  case (Cons item rest)
  obtain grade amount where item: "item = (grade, amount)" by (cases item)
  from Cons.prems item have fresh: "grade \<notin> fst ` set rest" and d: "distinct (map fst rest)"
    by simp_all
  define paid where "paid = temp(grade := temp grade - amount)"
  have same: "list_all (\<lambda>(g, a). a \<le> paid g) rest = list_all (\<lambda>(g, a). a \<le> temp g) rest"
    unfolding list_all_iff
  proof (intro ball_cong refl)
    fix x assume "x \<in> set rest"
    then have "fst x \<noteq> grade" using fresh by auto
    then show "(case x of (g, a) \<Rightarrow> a \<le> paid g) = (case x of (g, a) \<Rightarrow> a \<le> temp g)"
      by (cases x) (simp add: paid_def)
  qed
  show ?case
  proof (cases "amount \<le> temp grade")
    case True
    then have "snd (exact_payment_loop (item # rest) temp) = snd (exact_payment_loop rest paid)"
      by (simp add: item paid_def)
    also have "\<dots> = list_all (\<lambda>(g, a). a \<le> paid g) rest"
      by (rule Cons.IH [OF d])
    also note same
    finally show ?thesis using True by (simp add: item)
  next
    case False
    then show ?thesis by (simp add: item)
  qed
qed

lemma can_afford_loop_eq:
  "can_afford_loop stock whole c =
     (list_all (\<lambda>(grade, amount). amount \<le> stock grade) c \<or> can_afford_with_conversion stock whole)"
  by (induction c) (auto split: if_splits)

lemma exact_payment_nonneg:
  "(\<And>g. 0 \<le> temp g) \<Longrightarrow> 0 \<le> fst (exact_payment_loop c temp) grade"
  by (induction c arbitrary: temp) auto

lemma conversion_loop_done:
  "remaining_cost \<le> 0 \<Longrightarrow> conversion_loop grades stock remaining_cost = (stock, remaining_cost)"
  by (cases grades) simp_all

lemma ceiling_division_covers:
  fixes r v :: int
  assumes "0 < v"
  shows "r \<le> ((r + v - 1) div v) * v"
proof -
  have "(r + v - 1) div v * v = (r + v - 1) - (r + v - 1) mod v"
    by (simp add: minus_mod_eq_div_mult)
  moreover have "(r + v - 1) mod v < v"
    using assms by simp
  ultimately show ?thesis by linarith
qed

lemma usable_value_update:
  "grade \<notin> set grades \<Longrightarrow> usable_value grades (stock(grade := x)) = usable_value grades stock"
  by (induction grades) (auto simp: usable_value_def)

lemma conversion_loop_covers:
  "distinct grades \<Longrightarrow> remaining_cost \<le> usable_value grades stock \<Longrightarrow>
     snd (conversion_loop grades stock remaining_cost) \<le> 0"
proof (induction grades arbitrary: stock remaining_cost)
  case Nil
  then show ?case by (simp add: usable_value_def)
next
  case (Cons grade grades)
  let ?v = "EXCHANGE_RATES grade"
  let ?c = "(remaining_cost + ?v - 1) div ?v"
  have v: "0 < ?v" by (rule EXCHANGE_RATES_pos)
  from Cons.prems have fresh: "grade \<notin> set grades" and d: "distinct grades" by simp_all
  have split: "usable_value (grade # grades) stock = max 0 (stock grade) * ?v + usable_value grades stock"
    by (simp add: usable_value_def)
  show ?case
  proof (cases "remaining_cost \<le> 0")
    case True
    then show ?thesis by simp
  next
    case pos: False
    show ?thesis
    proof (cases "0 < stock grade")
      case False
      then have "remaining_cost \<le> usable_value grades stock"
        using Cons.prems(2) split by simp
      have "snd (conversion_loop grades stock remaining_cost) \<le> 0"
        by (rule Cons.IH [OF d]) fact
      with pos False show ?thesis by simp
    next
      case avail: True
      show ?thesis
      proof (cases "stock grade \<le> ?c")
        case True
        then have m: "min (stock grade) ?c = stock grade" by simp
        have "remaining_cost - stock grade * ?v \<le> usable_value grades (stock(grade := 0))"
          using Cons.prems(2) split avail usable_value_update [OF fresh] by simp
        have "snd (conversion_loop grades (stock(grade := 0))
            (remaining_cost - stock grade * ?v)) \<le> 0"
          by (rule Cons.IH [OF d]) fact
        with pos avail m show ?thesis by (simp add: Let_def)
      next
        case False
        then have m: "min (stock grade) ?c = ?c" by simp
        have "remaining_cost - ?c * ?v \<le> 0"
          using ceiling_division_covers [OF v, of remaining_cost] by simp
        then have "conversion_loop grades (stock(grade := stock grade - ?c)) (remaining_cost - ?c * ?v)
            = (stock(grade := stock grade - ?c), remaining_cost - ?c * ?v)"
          by (rule conversion_loop_done)
        with \<open>remaining_cost - ?c * ?v \<le> 0\<close> pos avail m show ?thesis by (simp add: Let_def)
      qed
    qed
  qed
qed

lemma total_le_usable:
  "(\<Sum>grade\<leftarrow>grades. stock grade * EXCHANGE_RATES grade) \<le> usable_value grades stock"
proof (induction grades)
  case Nil
  then show ?case by (simp add: usable_value_def)
next
  case (Cons grade grades)
  have "stock grade * EXCHANGE_RATES grade \<le> max 0 (stock grade) * EXCHANGE_RATES grade"
    using EXCHANGE_RATES_pos [of grade] by (intro mult_right_mono) simp_all
  with Cons show ?case by (simp add: usable_value_def)
qed

lemma usable_value_rev: "usable_value (rev grades) stock = usable_value grades stock"
  by (simp add: usable_value_def rev_map [symmetric])

lemma conversion_loop_nonneg:
  "(\<And>g. 0 \<le> stock g) \<Longrightarrow> 0 \<le> fst (conversion_loop grades stock remaining_cost) grade"
proof (induction grades arbitrary: stock remaining_cost)
  case Nil
  then show ?case by simp
next
  case (Cons g grades)
  let ?use = "min (stock g) ((remaining_cost + EXCHANGE_RATES g - 1) div EXCHANGE_RATES g)"
  have a: "0 \<le> fst (conversion_loop grades (stock(g := stock g - ?use)) r) grade" for r
    by (rule Cons.IH) (use Cons.prems in simp)
  have b: "0 \<le> fst (conversion_loop grades stock r) grade" for r
    by (rule Cons.IH) (rule Cons.prems)
  show ?case
    using a b Cons.prems by (simp add: Let_def)
qed

lemma pay_with_conversion_succeeds:
  assumes "can_afford_with_conversion stock c"
  shows "fst (pay_with_conversion stock c)"
proof -
  have "total_cost c \<le> usable_value (rev all_grades) stock"
    using assms total_le_usable [of stock all_grades]
    by (simp add: can_afford_with_conversion_def total_value_sum usable_value_rev)
  moreover have "distinct (rev all_grades)" by (simp add: all_grades_def)
  ultimately have "snd (conversion_loop (rev all_grades) stock (total_cost c)) \<le> 0"
    by (intro conversion_loop_covers)
  then show ?thesis by (simp add: pay_with_conversion_def case_prod_unfold)
qed

lemma pay_cost_succeeds:
  assumes "distinct (map fst c)" and "can_afford_cost stock c"
  shows "fst (pay_cost stock c)"
proof (cases "snd (exact_payment_loop c stock)")
  case True
  with assms(2) show ?thesis by (simp add: pay_cost_def case_prod_unfold)
next
  case False
  then have "\<not> list_all (\<lambda>(grade, amount). amount \<le> stock grade) c"
    using exact_payment_flag [OF assms(1), of stock] by simp
  with assms(2) have "can_afford_with_conversion stock c"
    by (simp add: can_afford_cost_def can_afford_loop_eq)
  then have "fst (pay_with_conversion stock c)" by (rule pay_with_conversion_succeeds)
  with False assms(2) show ?thesis by (simp add: pay_cost_def case_prod_unfold)
qed

lemma pay_cost_nonneg:
  assumes "\<And>g. 0 \<le> stock g"
  shows "0 \<le> snd (pay_cost stock c) grade"
proof -
  have a: "0 \<le> fst (exact_payment_loop c stock) grade"
    using assms by (rule exact_payment_nonneg)
  have b: "0 \<le> fst (conversion_loop (rev all_grades) stock (total_cost c)) grade"
    using assms by (rule conversion_loop_nonneg)
  show ?thesis
    using a b assms by (simp add: pay_cost_def pay_with_conversion_def case_prod_unfold)
qed

lemma pay_cost_refused:
  "\<not> can_afford_cost stock c \<Longrightarrow> pay_cost stock c = (False, stock)"
  by (simp add: pay_cost_def)

lemma scenario_payment:
  "pay_cost scenario_ledger scenario_cost = (True, (\<lambda>grade. 0)(MID := 2))"
proof -
  have afford: "can_afford_cost scenario_ledger scenario_cost"
    by (simp add: can_afford_cost_def can_afford_with_conversion_def total_cost_def
        total_value_eval scenario_ledger_def scenario_cost_def)
  have conv: "conversion_loop (rev all_grades) scenario_ledger 50 = ((\<lambda>grade. 0)(MID := 2), - 50)"
    by (simp add: all_grades_def scenario_ledger_def fun_eq_iff)
  show ?thesis
    using afford conv
    by (simp add: pay_cost_def pay_with_conversion_def total_cost_def scenario_cost_def
        scenario_ledger_def)
qed


section \<open>Claims about the ledger\<close>

text \<open>
  C1 (as stated): for the ledger {Low: 0, Mid: 2, High: 1} and the cost {Mid: 5}, the
  payment succeeds and the remaining total value lies between 70 and 120. The statement
  fails: the payment succeeds, but the remaining value is below 70.
\<close>

theorem C1_bounds_counterexample:
  "\<not> (fst (pay_cost scenario_ledger scenario_cost)
      \<and> 70 \<le> get_total_value_in_low_grade (snd (pay_cost scenario_ledger scenario_cost))
      \<and> get_total_value_in_low_grade (snd (pay_cost scenario_ledger scenario_cost)) \<le> 120)"
  by (simp add: scenario_payment total_value_eval)

text \<open>
  C1 (amended): with the ledger {Low: 0, Mid: 2, High: 1}, whose total value is 120, the
  check \<^verbatim>\<open>can_afford_cost({Mid: 5})\<close> holds and \<^verbatim>\<open>pay_cost({Mid: 5})\<close> succeeds through
  conversion. The whole High stone is consumed and no change is returned: the ledger
  becomes {Low: 0, Mid: 2, High: 0} with total value 20, which is at most the old total
  minus the cost (no currency is created, the cost is covered) but overpays by 50.
\<close>

theorem C1_conversion_scenario:
  "get_total_value_in_low_grade scenario_ledger = 120
   \<and> total_cost scenario_cost = 50
   \<and> \<not> snd (exact_payment_loop scenario_cost scenario_ledger)
   \<and> can_afford_cost scenario_ledger scenario_cost
   \<and> fst (pay_cost scenario_ledger scenario_cost)
   \<and> map (snd (pay_cost scenario_ledger scenario_cost)) all_grades = [0, 2, 0, 0, 0]
   \<and> get_total_value_in_low_grade (snd (pay_cost scenario_ledger scenario_cost)) = 20
   \<and> get_total_value_in_low_grade (snd (pay_cost scenario_ledger scenario_cost))
        \<le> get_total_value_in_low_grade scenario_ledger - total_cost scenario_cost"
proof -
  have "can_afford_cost scenario_ledger scenario_cost"
    by (simp add: can_afford_cost_def can_afford_with_conversion_def total_cost_def
        total_value_eval scenario_ledger_def scenario_cost_def)
  moreover have "get_total_value_in_low_grade scenario_ledger = 120"
    by (simp add: total_value_eval scenario_ledger_def)
  moreover have "total_cost scenario_cost = 50"
    by (simp add: total_cost_def scenario_cost_def)
  moreover have "\<not> snd (exact_payment_loop scenario_cost scenario_ledger)"
    by (simp add: scenario_cost_def scenario_ledger_def)
  ultimately show ?thesis
    by (simp add: scenario_payment total_value_eval all_grades_def)
qed

text \<open>
  C2: for every cost dict and every inventory, if \<^verbatim>\<open>can_afford_cost\<close> returns true then
  \<^verbatim>\<open>pay_cost\<close> returns true; and if no count was negative before the payment, no count
  is negative after it.
\<close>

theorem C2_pay_after_can_afford:
  assumes "distinct (map fst c)" and "can_afford_cost stock c"
  shows "fst (pay_cost stock c)
     \<and> ((\<forall>grade. 0 \<le> stock grade) \<longrightarrow> (\<forall>grade. 0 \<le> snd (pay_cost stock c) grade))"
  using pay_cost_succeeds [OF assms] pay_cost_nonneg [of stock c] by blast

theorem C2_pay_after_can_afford_witness:
  "distinct (map fst scenario_cost) \<and> can_afford_cost scenario_ledger scenario_cost
   \<and> fst (pay_cost scenario_ledger scenario_cost)
   \<and> 0 \<le> snd (pay_cost scenario_ledger scenario_cost) HIGH"
proof -
  have d: "distinct (map fst scenario_cost)" by (simp add: scenario_cost_def)
  have a: "can_afford_cost scenario_ledger scenario_cost"
    by (simp add: can_afford_cost_def can_afford_with_conversion_def total_cost_def
        total_value_eval scenario_ledger_def scenario_cost_def)
  have n: "\<forall>grade. 0 \<le> scenario_ledger grade" by (simp add: scenario_ledger_def)
  from C2_pay_after_can_afford [OF d a] n d a show ?thesis by blast
qed

text \<open>
  C9 (as stated): \<^verbatim>\<open>add_stones\<close> with a negative amount leaves the inventory unchanged.
  The statement fails: adding \<open>-5\<close> Low stones to the starting inventory lowers the Low
  count from 50 to 45.
\<close>

theorem C9_negative_deposit_counterexample:
  "add_stones initial_inventory LOW (- 5) \<noteq> initial_inventory
   \<and> add_stones initial_inventory LOW (- 5) LOW = 45
   \<and> initial_inventory LOW = 50"
proof -
  have "add_stones initial_inventory LOW (- 5) LOW = 45" "initial_inventory LOW = 50"
    by (simp_all add: add_stones_def initial_inventory_def)
  then show ?thesis by (metis zero_neq_numeral add_cancel_left_right numeral_eq_iff
        semiring_norm(89) num.distinct(5))
qed

text \<open>
  C9 (amended): \<^verbatim>\<open>add_stones\<close> adds the amount to the count of the given grade
  unconditionally and changes no other grade. Hence a non-negative amount never decreases
  a count, and a negative amount is neither rejected nor ignored: it lowers the count of
  its grade.
\<close>

theorem C9_add_stones_unconditional:
  "add_stones stock grade amount grade = stock grade + amount
   \<and> (\<forall>other. other \<noteq> grade \<longrightarrow> add_stones stock grade amount other = stock other)
   \<and> (0 \<le> amount \<longrightarrow> (\<forall>g. stock g \<le> add_stones stock grade amount g))
   \<and> (amount < 0 \<longrightarrow> add_stones stock grade amount grade < stock grade)"
  by (simp add: add_stones_def)

theorem C9_add_stones_unconditional_witness:
  "add_stones initial_inventory MID 3 MID = 18
   \<and> add_stones initial_inventory MID 3 LOW = 50
   \<and> (0::int) \<le> 3 \<and> initial_inventory HIGH \<le> add_stones initial_inventory MID 3 HIGH
   \<and> (- 2 :: int) < 0 \<and> add_stones initial_inventory MID (- 2) MID < initial_inventory MID"
proof -
  have v: "initial_inventory MID = 15" "initial_inventory LOW = 50"
    by (simp_all add: initial_inventory_def)
  from C9_add_stones_unconditional [of initial_inventory MID 3]
    C9_add_stones_unconditional [of initial_inventory MID "- 2"] v
  show ?thesis by simp
qed

end
